theory Spec2Isabelle
  imports Main "HOL-Library.FSet" "HOL-Library.DAList"
begin

section \<open>Python text primitives\<close>

text \<open>
  A Python \<open>str\<close> is modelled as a \<open>string\<close> whose characters stand for the code points
  below 256; \<open>of_char\<close> gives the code point.

  \<open>str.strip()\<close> removes leading and trailing whitespace. Below 256 the characters with
  \<open>str.isspace\<close> are 9 to 13, 28 to 32, 133 and 160.
\<close>

definition isspace :: "char \<Rightarrow> bool" where
  "isspace c = (let n = (of_char c :: nat) in
     (9 \<le> n \<and> n \<le> 13) \<or> (28 \<le> n \<and> n \<le> 32) \<or> n = 133 \<or> n = 160)"

definition strip :: "string \<Rightarrow> string" where
  "strip s = rev (dropWhile isspace (rev (dropWhile isspace s)))"

text \<open>
  \<open>str.lower()\<close>: below 256 the upper-case letters are A to Z and the code points
  192 to 222 without the multiplication sign 215; each has its lower-case form 32 above.
\<close>

definition lower_char :: "char \<Rightarrow> char" where
  "lower_char c = (let n = (of_char c :: nat) in
     if (65 \<le> n \<and> n \<le> 90) \<or> (192 \<le> n \<and> n \<le> 222 \<and> n \<noteq> 215)
     then char_of (n + 32) else c)"

definition lower :: "string \<Rightarrow> string" where
  "lower s = map lower_char s"

text \<open>
  \<open>s.split(sep)\<close> for a one-character separator: every occurrence separates, so the
  result always has one piece more than there are separators. \<open>acc\<close> holds the current
  piece, reversed.
\<close>

fun split_from :: "char \<Rightarrow> string \<Rightarrow> string \<Rightarrow> string list" where
  "split_from sep acc [] = [rev acc]"
| "split_from sep acc (c # cs) =
     (if c = sep then rev acc # split_from sep [] cs else split_from sep (c # acc) cs)"

definition split :: "char \<Rightarrow> string \<Rightarrow> string list" where
  "split sep s = split_from sep [] s"

text \<open>\<open>sep.join(pieces)\<close>.\<close>

fun join :: "string \<Rightarrow> string list \<Rightarrow> string" where
  "join sep [] = []"
| "join sep [p] = p"
| "join sep (p # q # ps) = p @ sep @ join sep (q # ps)"

text \<open>
  \<open>str(n)\<close> of an integer: decimal digits, with a minus sign when negative. Integers are
  unbounded, but the interpreter refuses to convert between \<open>int\<close> and \<open>str\<close> when more
  than 4300 digits are involved (\<open>sys.get_int_max_str_digits()\<close>): both \<open>str(n)\<close> and
  \<open>int(s)\<close> then raise \<open>ValueError\<close>, here \<open>None\<close>.
\<close>

definition MAX_STR_DIGITS :: nat where
  "MAX_STR_DIGITS = 4300"

definition digit_char :: "nat \<Rightarrow> char" where
  "digit_char d = char_of (48 + d)"

function str_nat :: "nat \<Rightarrow> string" where
  "str_nat n = (if n < 10 then [digit_char n] else str_nat (n div 10) @ [digit_char (n mod 10)])"
  by pat_completeness auto
termination
  by (relation "measure (\<lambda>n. n)") auto

declare str_nat.simps [simp del]

definition decimal :: "int \<Rightarrow> string" where
  "decimal i = (if i < 0 then CHR ''-'' # str_nat (nat (- i)) else str_nat (nat i))"

definition py_str :: "int \<Rightarrow> string option" where
  "py_str i =
     (if length (str_nat (nat \<bar>i\<bar>)) > MAX_STR_DIGITS then None else Some (decimal i))"

text \<open>
  \<open>int(s)\<close> of a string, base 10: surrounding whitespace is skipped, one sign is allowed,
  then come decimal digits, where single underscores may stand between digits. Anything
  else is a \<open>ValueError\<close>, here \<open>None\<close>, and so is a numeral of more than 4300 digits
  (leading zeros count, underscores do not). The whitespace \<open>int\<close> skips is 9 to 13, 32, 133
  and 160; every string the program converts has been through \<open>strip\<close> before.
\<close>

definition int_space :: "char \<Rightarrow> bool" where
  "int_space c = (let n = (of_char c :: nat) in
     (9 \<le> n \<and> n \<le> 13) \<or> n = 32 \<or> n = 133 \<or> n = 160)"

definition is_digit :: "char \<Rightarrow> bool" where
  "is_digit c = (let n = (of_char c :: nat) in 48 \<le> n \<and> n \<le> 57)"

definition digit_val :: "char \<Rightarrow> nat" where
  "digit_val c = of_char c - 48"

fun scan_digits :: "nat \<Rightarrow> char \<Rightarrow> string \<Rightarrow> nat option" where
  "scan_digits acc prev [] = (if prev = CHR ''_'' then None else Some acc)"
| "scan_digits acc prev (c # cs) =
     (if c = CHR ''_'' then (if prev = CHR ''_'' then None else scan_digits acc c cs)
      else if is_digit c then scan_digits (10 * acc + digit_val c) c cs
      else None)"

definition parse_nat :: "string \<Rightarrow> nat option" where
  "parse_nat s = (case s of
       [] \<Rightarrow> None
     | c # cs \<Rightarrow>
         if is_digit c then
           (case scan_digits (digit_val c) c cs of
              None \<Rightarrow> None
            | Some n \<Rightarrow> if length (filter is_digit s) > MAX_STR_DIGITS then None else Some n)
         else None)"

definition py_int :: "string \<Rightarrow> int option" where
  "py_int s =
     (let t = rev (dropWhile int_space (rev (dropWhile int_space s))) in
      case t of
        [] \<Rightarrow> None
      | c # cs \<Rightarrow>
          if c = CHR ''+'' then map_option int (parse_nat cs)
          else if c = CHR ''-'' then map_option (\<lambda>n. - int n) (parse_nat cs)
          else map_option int (parse_nat t))"

section \<open>Errors and the Room class\<close>

text \<open>
  The three custom exceptions of the module. An operation that raises returns the
  exception as a value, together with the state it leaves behind.
\<close>

datatype error = RoomNotFoundError | TimeslotAlreadyBookedError | RoomAlreadyExistsError

text \<open>
  Class \<open>Room\<close>. Python integers are unbounded, so \<open>capacity\<close> and the hours are
  \<open>int\<close>; a Python \<open>set\<close> of integers is a finite set.
\<close>

record Room =
  room_no :: string
  building :: string
  capacity :: int
  booked_hours :: "int fset"

text \<open>
  \<open>Room.__init__\<close>: \<open>int(capacity)\<close> is the identity on an integer argument, and
  \<open>set(booked_hours or [])\<close> is the empty set when no set is passed.
\<close>

definition Room_init :: "string \<Rightarrow> string \<Rightarrow> int \<Rightarrow> int fset option \<Rightarrow> Room" where
  "Room_init rn b c bh =
     \<lparr>room_no = rn, building = b, capacity = c,
      booked_hours = (case bh of None \<Rightarrow> {||} | Some s \<Rightarrow> s)\<rparr>"

definition is_free_at :: "Room \<Rightarrow> int \<Rightarrow> bool" where
  "is_free_at r hour = (hour |\<notin>| booked_hours r)"

text \<open>
  \<open>Room.book_hour\<close> mutates the room or raises. The model returns the outcome and the
  room as the call leaves it.
\<close>

definition book_hour :: "int \<Rightarrow> Room \<Rightarrow> (error + unit) \<times> Room" where
  "book_hour hour r =
     (if hour |\<in>| booked_hours r then (Inl TimeslotAlreadyBookedError, r)
      else (Inr (), r\<lparr>booked_hours := finsert hour (booked_hours r)\<rparr>))"

text \<open>
  \<open>Room.booked_hours_str\<close>: the hours in ascending order, in decimal, joined by
  semicolons; the empty string when nothing is booked. It raises when \<open>str\<close> of an hour
  does.
\<close>

definition booked_hours_str :: "Room \<Rightarrow> string option" where
  "booked_hours_str r =
     (if booked_hours r = {||} then Some []
      else map_option (join '';'')
             (those (map py_str (sorted_list_of_fset (booked_hours r)))))"

section \<open>The room manager\<close>

text \<open>
  Class \<open>RoomManager\<close> holds one dictionary from identifier to room. A Python \<open>dict\<close>
  keeps its keys distinct and in insertion order, and assigning to a key that is present
  replaces the value in place: an association list with distinct keys.
\<close>

record RoomManager =
  rooms :: "(string, Room) alist"

definition has_key :: "RoomManager \<Rightarrow> string \<Rightarrow> bool" where
  "has_key m k = (DAList.lookup (rooms m) k \<noteq> None)"

definition rooms_values :: "RoomManager \<Rightarrow> Room list" where
  "rooms_values m = map snd (DAList.impl_of (rooms m))"

definition set_room :: "string \<Rightarrow> Room \<Rightarrow> RoomManager \<Rightarrow> RoomManager" where
  "set_room k r m = m\<lparr>rooms := DAList.update k r (rooms m)\<rparr>"

definition empty_manager :: RoomManager where
  "empty_manager = \<lparr>rooms = DAList.empty\<rparr>"

subsection \<open>Persistence\<close>

text \<open>
  The file is modelled at the level of the \<open>csv\<close> module's records: a file is the list
  of its rows, a row the list of its fields, and \<open>None\<close> is the file that does not
  exist. What \<open>csv.writer\<close> wrote, \<open>csv.reader\<close> reads back field by field; the quoting
  of the characters in between and the reader's limit on the length of a field are the
  library's and are not part of the model.
\<close>

type_synonym csv_row = "string list"
type_synonym csv_file = "csv_row list"

definition CSV_HEADERS :: "string list" where
  "CSV_HEADERS = [''room_no'', ''building'', ''capacity'', ''booked_hours'']"

text \<open>The diagnostics that loading and saving can print.\<close>

datatype message = HeaderWarning | LoadError | SaveError

text \<open>
  \<open>csv.DictReader\<close> turns a row into a dictionary: \<open>dict(zip(fieldnames, row))\<close>, and
  when the row is shorter than the header the remaining field names are set to \<open>None\<close>
  (\<open>restval\<close>). Fields beyond the header go under the key \<open>None\<close>, which no lookup of
  the program reads. A value \<open>None\<close> of the dictionary is \<open>Some None\<close> here.
\<close>

definition dict_row :: "string list \<Rightarrow> csv_row \<Rightarrow> (string \<rightharpoonup> string option)" where
  "dict_row fieldnames row =
     (let d = fold (\<lambda>(k, v) d. d(k \<mapsto> Some v)) (zip fieldnames row) Map.empty in
      if length fieldnames > length row
      then fold (\<lambda>k d. d(k \<mapsto> None)) (drop (length row) fieldnames) d
      else d)"

text \<open>\<open>row.get(key) or default\<close>: a missing key, \<open>None\<close> and the empty string all give the default.\<close>

definition get_or :: "(string \<rightharpoonup> string option) \<Rightarrow> string \<Rightarrow> string \<Rightarrow> string" where
  "get_or d k dflt = (case d k of
       Some (Some v) \<Rightarrow> if v = [] then dflt else v
     | _ \<Rightarrow> dflt)"

text \<open>The loop over the pieces of the booked-hours field.\<close>

fun parse_hours :: "string list \<Rightarrow> int fset \<Rightarrow> int fset" where
  "parse_hours [] bh = bh"
| "parse_hours (piece # ps) bh =
     (let piece = strip piece in
      if piece = [] then parse_hours ps bh
      else case py_int piece of
          None \<Rightarrow> parse_hours ps bh
        | Some h \<Rightarrow> if 0 \<le> h \<and> h \<le> 23 then parse_hours ps (finsert h bh)
                    else parse_hours ps bh)"

text \<open>The body of the loop over the rows.\<close>

definition load_row :: "string list \<Rightarrow> csv_row \<Rightarrow> RoomManager \<Rightarrow> RoomManager" where
  "load_row fieldnames row m =
     (let d = dict_row fieldnames row;
          rn = strip (get_or d ''room_no'' []);
          b = strip (get_or d ''building'' []);
          capacity_str = strip (get_or d ''capacity'' ''0'');
          booked_str = strip (get_or d ''booked_hours'' [])
      in if rn = [] then m
         else
           let c = (case py_int capacity_str of Some v \<Rightarrow> v | None \<Rightarrow> 0);
               bh = (if booked_str \<noteq> [] then parse_hours (split CHR '';'' booked_str) {||}
                     else {||})
           in set_room rn (Room_init rn b c (Some bh)) m)"

text \<open>
  \<open>load_from_csv\<close>. The first row of the file is the header; a file without rows has
  no field names. \<open>DictReader\<close> passes over the rows that are empty lists. No step of
  the loop can raise at this level, so the outer handler and \<open>LoadError\<close> stay unused.
\<close>

definition load_from_csv :: "csv_file option \<Rightarrow> RoomManager \<Rightarrow> RoomManager \<times> message list" where
  "load_from_csv file m = (case file of
       None \<Rightarrow> (m, [])
     | Some [] \<Rightarrow> (m, [HeaderWarning])
     | Some (fieldnames # rest) \<Rightarrow>
         if list_ex (\<lambda>h. h \<notin> set fieldnames) CSV_HEADERS then (m, [HeaderWarning])
         else (fold (load_row fieldnames) (filter (\<lambda>row. row \<noteq> []) rest) m, []))"

text \<open>\<open>RoomManager.__init__\<close>: an empty dictionary, then the load.\<close>

definition RoomManager_init :: "csv_file option \<Rightarrow> RoomManager \<times> message list" where
  "RoomManager_init file = load_from_csv file empty_manager"

text \<open>
  \<open>save_to_csv\<close> overwrites the file with the header and one row per room, the fields in
  the order of \<open>CSV_HEADERS\<close>. The dictionary of a row is built before the row is written,
  so when \<open>str\<close> raises for a room, the handler around the loop prints the error and the
  file keeps the header and the rows of the rooms before. The result is the content of the
  file afterwards, and what was printed.
\<close>

definition room_row :: "Room \<Rightarrow> csv_row option" where
  "room_row r = (case py_str (capacity r) of
       None \<Rightarrow> None
     | Some c \<Rightarrow> (case booked_hours_str r of
           None \<Rightarrow> None
         | Some b \<Rightarrow> Some [room_no r, building r, c, b]))"

fun save_rows :: "Room list \<Rightarrow> csv_row list \<times> message list" where
  "save_rows [] = ([], [])"
| "save_rows (r # rs) = (case room_row r of
       None \<Rightarrow> ([], [SaveError])
     | Some row \<Rightarrow> (case save_rows rs of (rows, msgs) \<Rightarrow> (row # rows, msgs)))"

definition save_to_csv :: "RoomManager \<Rightarrow> csv_file \<times> message list" where
  "save_to_csv m = (case save_rows (rooms_values m) of
       (rows, msgs) \<Rightarrow> (CSV_HEADERS # rows, msgs))"

subsection \<open>Operations\<close>

definition add_room :: "string \<Rightarrow> string \<Rightarrow> int \<Rightarrow> RoomManager \<Rightarrow> (error + Room) \<times> RoomManager" where
  "add_room rn b c m =
     (let rn = strip rn in
      if has_key m rn then (Inl RoomAlreadyExistsError, m)
      else let room = Room_init rn (strip b) c None
           in (Inr room, set_room rn room m))"

definition get_room :: "string \<Rightarrow> RoomManager \<Rightarrow> error + Room" where
  "get_room rn m =
     (let rn = strip rn in
      case DAList.lookup (rooms m) rn of
        None \<Rightarrow> Inl RoomNotFoundError
      | Some r \<Rightarrow> Inr r)"

text \<open>
  \<open>book_room\<close> books on the room object that the dictionary holds, so whatever
  \<open>book_hour\<close> leaves of the room is what the dictionary has afterwards, also when it
  raises.
\<close>

definition book_room :: "string \<Rightarrow> int \<Rightarrow> RoomManager \<Rightarrow> (error + Room) \<times> RoomManager" where
  "book_room rn hour m = (case get_room rn m of
       Inl e \<Rightarrow> (Inl e, m)
     | Inr r \<Rightarrow> (case book_hour hour r of
           (Inl e, r') \<Rightarrow> (Inl e, set_room (strip rn) r' m)
         | (Inr u, r') \<Rightarrow> (Inr r', set_room (strip rn) r' m)))"

text \<open>
  \<open>find_rooms\<close>: the loop over the rooms in dictionary order, each \<open>continue\<close> a branch
  that leaves the room out. An argument \<open>None\<close> is a criterion that is not supplied.
\<close>

fun find_loop :: "string option \<Rightarrow> int option \<Rightarrow> int option \<Rightarrow> Room list \<Rightarrow> Room list" where
  "find_loop bld min_capacity free_at_hour [] = []"
| "find_loop bld min_capacity free_at_hour (r # rs) =
     (if bld \<noteq> None \<and> lower (building r) \<noteq> lower (the bld)
        then find_loop bld min_capacity free_at_hour rs
      else if min_capacity \<noteq> None \<and> capacity r < the min_capacity
        then find_loop bld min_capacity free_at_hour rs
      else if free_at_hour \<noteq> None \<and> \<not> is_free_at r (the free_at_hour)
        then find_loop bld min_capacity free_at_hour rs
      else r # find_loop bld min_capacity free_at_hour rs)"

definition find_rooms :: "string option \<Rightarrow> int option \<Rightarrow> int option \<Rightarrow> RoomManager \<Rightarrow> Room list" where
  "find_rooms bld min_capacity free_at_hour m =
     find_loop bld min_capacity free_at_hour (rooms_values m)"

section \<open>Sessions and well-formed registries\<close>

text \<open>
  A session: the manager is constructed, which loads the file, and then \<open>add_room\<close>,
  \<open>book_room\<close> and \<open>load_from_csv\<close> (on whatever the file holds by then) are called in
  any order with any arguments. An exception is caught by the caller, as \<open>main_loop\<close>
  does, and the session goes on with the manager as the failed call left it.
  \<open>book_hour\<close> on a room of the manager is \<open>book_room\<close> with its identifier.
\<close>

datatype operation =
    AddRoom string string int
  | BookRoom string int
  | Load "csv_file option"

fun apply_operation :: "operation \<Rightarrow> RoomManager \<Rightarrow> RoomManager" where
  "apply_operation (AddRoom rn b c) m = snd (add_room rn b c m)"
| "apply_operation (BookRoom rn hour) m = snd (book_room rn hour m)"
| "apply_operation (Load stored) m = fst (load_from_csv stored m)"

definition run :: "operation list \<Rightarrow> RoomManager \<Rightarrow> RoomManager" where
  "run ops m = fold apply_operation ops m"

text \<open>
  What the front end guarantees of the arguments it passes on: an hour in \<open>[0, 23]\<close> and
  a capacity that is not negative. For a load, the capacities are those that the rows of
  the file parse to.
\<close>

definition row_capacity_nonneg :: "string list \<Rightarrow> csv_row \<Rightarrow> bool" where
  "row_capacity_nonneg fieldnames row =
     (case py_int (strip (get_or (dict_row fieldnames row) ''capacity'' ''0'')) of
        None \<Rightarrow> True
      | Some c \<Rightarrow> 0 \<le> c)"

fun hour_arg_in_range :: "operation \<Rightarrow> bool" where
  "hour_arg_in_range (AddRoom rn b c) = True"
| "hour_arg_in_range (BookRoom rn hour) = (0 \<le> hour \<and> hour \<le> 23)"
| "hour_arg_in_range (Load stored) = True"

fun capacity_arg_nonneg :: "operation \<Rightarrow> bool" where
  "capacity_arg_nonneg (AddRoom rn b c) = (0 \<le> c)"
| "capacity_arg_nonneg (BookRoom rn hour) = True"
| "capacity_arg_nonneg (Load None) = True"
| "capacity_arg_nonneg (Load (Some [])) = True"
| "capacity_arg_nonneg (Load (Some (fieldnames # rest))) =
     list_all (row_capacity_nonneg fieldnames) rest"

text \<open>The identifiers that the rows of a file carry: the rooms that loading it stores.\<close>

fun file_identifiers :: "csv_file option \<Rightarrow> string list" where
  "file_identifiers None = []"
| "file_identifiers (Some []) = []"
| "file_identifiers (Some (fieldnames # rest)) =
     map (\<lambda>row. strip (get_or (dict_row fieldnames row) ''room_no'' [])) rest"

fun replaces :: "operation \<Rightarrow> string \<Rightarrow> bool" where
  "replaces (Load stored) k = (k \<in> set (file_identifiers stored))"
| "replaces (AddRoom rn b c) k = False"
| "replaces (BookRoom rn hour) k = False"

text \<open>Properties of rooms and registries that the statements below use.\<close>

definition hours_in_range :: "Room \<Rightarrow> bool" where
  "hours_in_range r = fBall (booked_hours r) (\<lambda>h. 0 \<le> h \<and> h \<le> 23)"

definition trimmed_entry :: "string \<times> Room \<Rightarrow> bool" where
  "trimmed_entry e = (case e of (k, r) \<Rightarrow>
     room_no r = k \<and> strip k = k \<and> strip (building r) = building r)"

text \<open>
  Every room is stored under its own identifier, and identifiers and buildings are
  trimmed. Every registry of a session is like this (\<open>run_consistent\<close> below).
\<close>

definition consistent :: "RoomManager \<Rightarrow> bool" where
  "consistent m = list_all trimmed_entry (DAList.impl_of (rooms m))"

definition capacity_nonneg :: "Room \<Rightarrow> bool" where
  "capacity_nonneg r = (0 \<le> capacity r)"






section \<open>Lemmas on the text primitives\<close>

subsection \<open>Decimal rendering and parsing\<close>





















subsection \<open>Splitting and joining\<close>






subsection \<open>The pieces of the booked-hours field\<close>

lemma py_int_empty: "py_int [] = None"
  by (simp add: py_int_def)

lemma parse_hours_fset:
  "fset (parse_hours ps bh) =
     fset bh \<union> {h. 0 \<le> h \<and> h \<le> 23 \<and> (\<exists>p \<in> set ps. py_int (strip p) = Some h)}"
proof (induction ps arbitrary: bh)
  case Nil
  then show ?case by simp
next
  case (Cons p ps)
  show ?case
  proof (cases "py_int (strip p)")
    case None
    then show ?thesis using Cons.IH [of bh] by (auto simp: Let_def)
  next
    case (Some h)
    then have ne: "strip p \<noteq> []" using py_int_empty by auto
    show ?thesis
    proof (cases "0 \<le> h \<and> h \<le> 23")
      case True
      then show ?thesis using Some ne Cons.IH [of "finsert h bh"] by (auto simp: Let_def)
    next
      case False
      then show ?thesis using Some ne Cons.IH [of bh] by (auto simp: Let_def)
    qed
  qed
qed

subsection \<open>Rows of a saved file\<close>






subsection \<open>Dictionary updates\<close>


lemma impl_of_set_room:
  "DAList.impl_of (rooms (set_room k r m)) = AList.update k r (DAList.impl_of (rooms m))"
  by (simp add: set_room_def DAList.update.rep_eq)






lemma headers_accepted: "\<not> list_ex (\<lambda>h. h \<notin> set CSV_HEADERS) CSV_HEADERS"
  by (simp add: list_ex_iff)

subsection \<open>Trimming\<close>

lemma strip_all_space:
  assumes "\<forall>c \<in> set s. isspace c"
  shows "strip s = []"
proof -
  have d: "dropWhile isspace s = []" using assms by (induction s) auto
  show ?thesis unfolding strip_def d by simp
qed

lemma strip_ends:
  assumes "strip s \<noteq> []"
  shows "\<not> isspace (hd (strip s))" and "\<not> isspace (last (strip s))"
proof -
  define u where "u = dropWhile isspace s"
  define v where "v = dropWhile isspace (rev u)"
  have sv: "strip s = rev v" by (simp add: strip_def u_def v_def)
  with assms have v: "v \<noteq> []" by simp
  then have hv: "\<not> isspace (hd v)" unfolding v_def by (rule hd_dropWhile)
  then show "\<not> isspace (last (strip s))" using v by (simp add: sv last_rev)
  have "rev u = takeWhile isspace (rev u) @ v" by (simp add: v_def)
  then have "u = rev v @ rev (takeWhile isspace (rev u))"
    by (metis rev_append rev_rev_ident)
  then have "hd u = hd (rev v)" using v by (metis hd_append2 rev_is_Nil_conv)
  moreover have "u \<noteq> []" using v v_def by auto
  then have "\<not> isspace (hd u)" unfolding u_def by (rule hd_dropWhile)
  ultimately show "\<not> isspace (hd (strip s))" by (simp add: sv)
qed

lemma strip_idem: "strip (strip s) = strip s"
proof (cases "strip s = []")
  case True
  then show ?thesis by (simp add: strip_def [of "[]"])
next
  case False
  obtain c cs where a: "strip s = c # cs" using False by (cases "strip s") auto
  obtain ys y where b: "strip s = ys @ [y]" using False by (cases "strip s" rule: rev_cases) auto
  have c: "\<not> isspace c" using strip_ends(1) [OF False] a by simp
  have y: "\<not> isspace y" using strip_ends(2) [OF False] b by simp
  have "dropWhile isspace (strip s) = strip s" using a c by simp
  moreover have "dropWhile isspace (rev (strip s)) = rev (strip s)" using b y by simp
  ultimately show ?thesis by (simp add: strip_def [of "strip s"])
qed



subsection \<open>What one operation does to the dictionary\<close>

lemma update_values:
  "set (map snd (AList.update k v xs)) \<subseteq> insert v (set (map snd xs))"
  by (induction xs) auto

lemma update_entries:
  "set (AList.update k v xs) \<subseteq> insert (k, v) (set xs)"
  by (induction xs) auto

lemma set_room_values:
  assumes "r' \<in> set (rooms_values (set_room k r m))"
  shows "r' = r \<or> r' \<in> set (rooms_values m)"
proof -
  have "r' \<in> set (map snd (AList.update k r (DAList.impl_of (rooms m))))"
    using assms by (simp only: rooms_values_def impl_of_set_room)
  then have "r' \<in> insert r (set (map snd (DAList.impl_of (rooms m))))"
    by (rule subsetD [OF update_values])
  then show ?thesis by (simp add: rooms_values_def)
qed

lemma set_room_entries:
  assumes "e \<in> set (DAList.impl_of (rooms (set_room k r m)))"
  shows "e = (k, r) \<or> e \<in> set (DAList.impl_of (rooms m))"
proof -
  have "e \<in> set (AList.update k r (DAList.impl_of (rooms m)))"
    using assms by (simp only: impl_of_set_room)
  then have "e \<in> insert (k, r) (set (DAList.impl_of (rooms m)))"
    by (rule subsetD [OF update_entries])
  then show ?thesis by simp
qed

lemma lookup_entry:
  "DAList.lookup (rooms m) k = Some r \<Longrightarrow> (k, r) \<in> set (DAList.impl_of (rooms m))"
proof -
  assume "DAList.lookup (rooms m) k = Some r"
  then have "map_of (DAList.impl_of (rooms m)) k = Some r"
    by (simp add: DAList.lookup.rep_eq)
  then show ?thesis by (rule map_of_SomeD)
qed

lemma lookup_value:
  "DAList.lookup (rooms m) k = Some r \<Longrightarrow> r \<in> set (rooms_values m)"
proof -
  assume "DAList.lookup (rooms m) k = Some r"
  then have "(k, r) \<in> set (DAList.impl_of (rooms m))" by (rule lookup_entry)
  then have "snd (k, r) \<in> snd ` set (DAList.impl_of (rooms m))" by (rule imageI)
  then show ?thesis by (simp add: rooms_values_def)
qed

lemma alist_update_same:
  "map_of xs k = Some v \<Longrightarrow> AList.update k v xs = xs"
  by (induction xs) (auto split: if_splits)

lemma dalist_update_same:
  "DAList.lookup d k = Some v \<Longrightarrow> DAList.update k v d = d"
  by transfer (simp add: alist_update_same)

lemma set_room_same:
  "DAList.lookup (rooms m) k = Some r \<Longrightarrow> set_room k r m = m"
  by (simp add: set_room_def dalist_update_same)

lemma add_room_cases:
  "snd (add_room rn b c m) = m \<or>
   snd (add_room rn b c m) = set_room (strip rn) (Room_init (strip rn) (strip b) c None) m"
  by (simp add: add_room_def Let_def)

lemma book_room_cases:
  "snd (book_room rn hour m) = m \<or>
   (\<exists>r. DAList.lookup (rooms m) (strip rn) = Some r \<and> hour |\<notin>| booked_hours r \<and>
        snd (book_room rn hour m)
          = set_room (strip rn) (r\<lparr>booked_hours := finsert hour (booked_hours r)\<rparr>) m)"
proof (cases "DAList.lookup (rooms m) (strip rn)")
  case None
  then show ?thesis by (simp add: book_room_def get_room_def)
next
  case (Some r)
  show ?thesis
  proof (cases "hour |\<in>| booked_hours r")
    case True
    then show ?thesis
      using Some by (simp add: book_room_def get_room_def book_hour_def set_room_same)
  next
    case False
    then show ?thesis
      using Some by (simp add: book_room_def get_room_def book_hour_def)
  qed
qed

lemma load_row_cases:
  "load_row fn row m = m \<or>
   (\<exists>c bh. strip (get_or (dict_row fn row) ''room_no'' []) \<noteq> []
      \<and> fset bh \<subseteq> {h. 0 \<le> h \<and> h \<le> 23}
      \<and> load_row fn row m
          = set_room (strip (get_or (dict_row fn row) ''room_no'' []))
              (Room_init (strip (get_or (dict_row fn row) ''room_no'' []))
                 (strip (get_or (dict_row fn row) ''building'' [])) c (Some bh)) m)"
proof (cases "strip (get_or (dict_row fn row) ''room_no'' []) = []")
  case True
  then show ?thesis by (simp add: load_row_def)
next
  case False
  define bh where "bh = (if strip (get_or (dict_row fn row) ''booked_hours'' []) \<noteq> []
     then parse_hours (split CHR '';'' (strip (get_or (dict_row fn row) ''booked_hours'' []))) {||}
     else {||})"
  define c where "c = (case py_int (strip (get_or (dict_row fn row) ''capacity'' ''0'')) of
     Some v \<Rightarrow> v | None \<Rightarrow> 0)"
  have "fset bh \<subseteq> {h. 0 \<le> h \<and> h \<le> 23}"
    by (auto simp: bh_def parse_hours_fset)
  moreover have "load_row fn row m
          = set_room (strip (get_or (dict_row fn row) ''room_no'' []))
              (Room_init (strip (get_or (dict_row fn row) ''room_no'' []))
                 (strip (get_or (dict_row fn row) ''building'' [])) c (Some bh)) m"
    using False by (simp add: load_row_def Let_def bh_def c_def)
  ultimately show ?thesis using False by (intro disjI2 exI [of _ c] exI [of _ bh] conjI)
qed


subsection \<open>Invariants of a session\<close>

lemma lookup_set_room:
  "DAList.lookup (rooms (set_room k' r' m)) k = (if k' = k then Some r' else DAList.lookup (rooms m) k)"
  by (simp add: set_room_def DAList.lookup_update)

lemma hours_in_range_iff: "hours_in_range r \<longleftrightarrow> fset (booked_hours r) \<subseteq> {h. 0 \<le> h \<and> h \<le> 23}"
  by (auto simp: hours_in_range_def)

lemma load_row_hours:
  assumes "\<forall>r \<in> set (rooms_values m). hours_in_range r"
  shows "\<forall>r \<in> set (rooms_values (load_row fn row m)). hours_in_range r"
proof
  fix r assume r: "r \<in> set (rooms_values (load_row fn row m))"
  from load_row_cases [of fn row m] show "hours_in_range r"
  proof
    assume "load_row fn row m = m"
    then show ?thesis using r assms by simp
  next
    assume "\<exists>c bh. strip (get_or (dict_row fn row) ''room_no'' []) \<noteq> []
      \<and> fset bh \<subseteq> {h. 0 \<le> h \<and> h \<le> 23}
      \<and> load_row fn row m
          = set_room (strip (get_or (dict_row fn row) ''room_no'' []))
              (Room_init (strip (get_or (dict_row fn row) ''room_no'' []))
                 (strip (get_or (dict_row fn row) ''building'' [])) c (Some bh)) m"
    then obtain c bh rn b where bh: "fset bh \<subseteq> {h. 0 \<le> h \<and> h \<le> 23}"
      and l: "load_row fn row m = set_room rn (Room_init rn b c (Some bh)) m"
      by blast
    from r have "r = Room_init rn b c (Some bh) \<or> r \<in> set (rooms_values m)"
      unfolding l by (rule set_room_values)
    then show ?thesis
      using bh assms by (auto simp: hours_in_range_iff Room_init_def)
  qed
qed

lemma fold_load_row_hours:
  "\<forall>r \<in> set (rooms_values m). hours_in_range r \<Longrightarrow>
   \<forall>r \<in> set (rooms_values (fold (load_row fn) rows m)). hours_in_range r"
proof (induction rows arbitrary: m)
  case Nil
  then show ?case by simp
next
  case (Cons row rows)
  have "\<forall>r \<in> set (rooms_values (load_row fn row m)). hours_in_range r"
    using Cons.prems by (rule load_row_hours)
  then show ?case by (simp add: Cons.IH)
qed

lemma load_from_csv_hours:
  assumes "\<forall>r \<in> set (rooms_values m). hours_in_range r"
  shows "\<forall>r \<in> set (rooms_values (fst (load_from_csv stored m))). hours_in_range r"
proof (cases stored)
  case None
  then show ?thesis using assms by (simp add: load_from_csv_def)
next
  case (Some rows)
  show ?thesis
  proof (cases rows)
    case Nil
    then show ?thesis using assms Some by (simp add: load_from_csv_def)
  next
    case (Cons fn rest)
    show ?thesis
      using fold_load_row_hours [OF assms, of fn "filter (\<lambda>row. row \<noteq> []) rest"] assms
      by (simp add: load_from_csv_def Some Cons)
  qed
qed

lemma init_hours: "\<forall>r \<in> set (rooms_values (fst (RoomManager_init stored))). hours_in_range r"
  unfolding RoomManager_init_def
  by (rule load_from_csv_hours) (simp add: rooms_values_def empty_manager_def DAList.empty.rep_eq)

lemma apply_operation_hours:
  assumes "hour_arg_in_range op" and "\<forall>r \<in> set (rooms_values m). hours_in_range r"
  shows "\<forall>r \<in> set (rooms_values (apply_operation op m)). hours_in_range r"
proof (cases op)
  case (AddRoom rn b c)
  show ?thesis
  proof
    fix r assume "r \<in> set (rooms_values (apply_operation op m))"
    then have r: "r \<in> set (rooms_values (snd (add_room rn b c m)))" by (simp add: AddRoom)
    from add_room_cases [of rn b c m] show "hours_in_range r"
    proof
      assume "snd (add_room rn b c m) = m"
      then show ?thesis using r assms(2) by simp
    next
      assume a: "snd (add_room rn b c m)
        = set_room (strip rn) (Room_init (strip rn) (strip b) c None) m"
      from r have "r = Room_init (strip rn) (strip b) c None \<or> r \<in> set (rooms_values m)"
        unfolding a by (rule set_room_values)
      then show ?thesis using assms(2) by (auto simp: hours_in_range_def Room_init_def)
    qed
  qed
next
  case (BookRoom rn hour)
  then have h: "0 \<le> hour" "hour \<le> 23" using assms(1) by simp_all
  show ?thesis
  proof
    fix r assume "r \<in> set (rooms_values (apply_operation op m))"
    then have r: "r \<in> set (rooms_values (snd (book_room rn hour m)))" by (simp add: BookRoom)
    from book_room_cases [of rn hour m] show "hours_in_range r"
    proof
      assume "snd (book_room rn hour m) = m"
      then show ?thesis using r assms(2) by simp
    next
      assume "\<exists>r0. DAList.lookup (rooms m) (strip rn) = Some r0 \<and> hour |\<notin>| booked_hours r0 \<and>
        snd (book_room rn hour m)
          = set_room (strip rn) (r0\<lparr>booked_hours := finsert hour (booked_hours r0)\<rparr>) m"
      then obtain r0 where l: "DAList.lookup (rooms m) (strip rn) = Some r0"
        and s: "snd (book_room rn hour m)
          = set_room (strip rn) (r0\<lparr>booked_hours := finsert hour (booked_hours r0)\<rparr>) m"
        by blast
      have "hours_in_range r0" using lookup_value [OF l] assms(2) by simp
      then have new: "hours_in_range (r0\<lparr>booked_hours := finsert hour (booked_hours r0)\<rparr>)"
        using h by (simp add: hours_in_range_def)
      from r have "r = r0\<lparr>booked_hours := finsert hour (booked_hours r0)\<rparr> \<or> r \<in> set (rooms_values m)"
        unfolding s by (rule set_room_values)
      then show ?thesis using new assms(2) by auto
    qed
  qed
next
  case (Load stored)
  then show ?thesis using load_from_csv_hours [OF assms(2), of stored] by simp
qed

lemma run_hours:
  "\<forall>op \<in> set ops. hour_arg_in_range op \<Longrightarrow>
   \<forall>r \<in> set (rooms_values m). hours_in_range r \<Longrightarrow>
   \<forall>r \<in> set (rooms_values (run ops m)). hours_in_range r"
proof (induction ops arbitrary: m)
  case Nil
  then show ?case by (simp add: run_def)
next
  case (Cons op ops)
  have "\<forall>r \<in> set (rooms_values (apply_operation op m)). hours_in_range r"
    using Cons.prems by (intro apply_operation_hours) simp_all
  then have "\<forall>r \<in> set (rooms_values (run ops (apply_operation op m))). hours_in_range r"
    using Cons.prems by (intro Cons.IH) simp_all
  then show ?case by (simp add: run_def)
qed

lemma session_hours:
  "\<forall>op \<in> set ops. hour_arg_in_range op \<Longrightarrow>
   \<forall>r \<in> set (rooms_values (run ops (fst (RoomManager_init stored)))). hours_in_range r"
  by (rule run_hours) (simp_all add: init_hours)

lemma load_row_entries:
  assumes "\<forall>e \<in> set (DAList.impl_of (rooms m)). trimmed_entry e \<and> fst e \<noteq> []"
  shows "\<forall>e \<in> set (DAList.impl_of (rooms (load_row fn row m))). trimmed_entry e \<and> fst e \<noteq> []"
proof
  fix e assume e: "e \<in> set (DAList.impl_of (rooms (load_row fn row m)))"
  from load_row_cases [of fn row m] show "trimmed_entry e \<and> fst e \<noteq> []"
  proof
    assume "load_row fn row m = m"
    then show ?thesis using e assms by simp
  next
    assume "\<exists>c bh. strip (get_or (dict_row fn row) ''room_no'' []) \<noteq> []
      \<and> fset bh \<subseteq> {h. 0 \<le> h \<and> h \<le> 23}
      \<and> load_row fn row m
          = set_room (strip (get_or (dict_row fn row) ''room_no'' []))
              (Room_init (strip (get_or (dict_row fn row) ''room_no'' []))
                 (strip (get_or (dict_row fn row) ''building'' [])) c (Some bh)) m"
    then obtain c bh x y where ne: "strip x \<noteq> []"
      and l: "load_row fn row m = set_room (strip x) (Room_init (strip x) (strip y) c (Some bh)) m"
      by blast
    from e have "e = (strip x, Room_init (strip x) (strip y) c (Some bh))
        \<or> e \<in> set (DAList.impl_of (rooms m))"
      unfolding l by (rule set_room_entries)
    then show ?thesis
      using ne assms by (auto simp: trimmed_entry_def Room_init_def strip_idem)
  qed
qed

lemma fold_load_row_entries:
  "\<forall>e \<in> set (DAList.impl_of (rooms m)). trimmed_entry e \<and> fst e \<noteq> [] \<Longrightarrow>
   \<forall>e \<in> set (DAList.impl_of (rooms (fold (load_row fn) rows m))). trimmed_entry e \<and> fst e \<noteq> []"
proof (induction rows arbitrary: m)
  case Nil
  then show ?case by simp
next
  case (Cons row rows)
  have "\<forall>e \<in> set (DAList.impl_of (rooms (load_row fn row m))). trimmed_entry e \<and> fst e \<noteq> []"
    using Cons.prems by (rule load_row_entries)
  then show ?case by (simp add: Cons.IH)
qed

lemma init_entries:
  "\<forall>e \<in> set (DAList.impl_of (rooms (fst (RoomManager_init stored)))). trimmed_entry e \<and> fst e \<noteq> []"
proof -
  have e: "\<forall>e \<in> set (DAList.impl_of (rooms empty_manager)). trimmed_entry e \<and> fst e \<noteq> []"
    by (simp add: empty_manager_def DAList.empty.rep_eq)
  show ?thesis
  proof (cases stored)
    case None
    then show ?thesis using e by (simp add: RoomManager_init_def load_from_csv_def)
  next
    case (Some rows)
    show ?thesis
    proof (cases rows)
      case Nil
      then show ?thesis using e Some by (simp add: RoomManager_init_def load_from_csv_def)
    next
      case (Cons fn rest)
      show ?thesis
        using fold_load_row_entries [OF e, of fn "filter (\<lambda>row. row \<noteq> []) rest"] e
        by (simp add: RoomManager_init_def load_from_csv_def Some Cons)
    qed
  qed
qed

lemma init_no_empty_key: "\<not> has_key (fst (RoomManager_init stored)) []"
proof
  assume "has_key (fst (RoomManager_init stored)) []"
  then obtain r where "DAList.lookup (rooms (fst (RoomManager_init stored))) [] = Some r"
    by (auto simp: has_key_def)
  then have "([], r) \<in> set (DAList.impl_of (rooms (fst (RoomManager_init stored))))"
    by (rule lookup_entry)
  then show False using init_entries [of stored] by auto
qed

lemma load_row_new:
  assumes "e \<in> set (DAList.impl_of (rooms (load_row fn row m)))"
  shows "e \<in> set (DAList.impl_of (rooms m))
       \<or> (trimmed_entry e \<and> (row_capacity_nonneg fn row \<longrightarrow> capacity_nonneg (snd e)))"
proof (cases "strip (get_or (dict_row fn row) ''room_no'' []) = []")
  case True
  then show ?thesis using assms by (simp add: load_row_def)
next
  case False
  define c where "c = (case py_int (strip (get_or (dict_row fn row) ''capacity'' ''0'')) of
     Some v \<Rightarrow> v | None \<Rightarrow> 0)"
  define bh where "bh = (if strip (get_or (dict_row fn row) ''booked_hours'' []) \<noteq> []
     then parse_hours (split CHR '';'' (strip (get_or (dict_row fn row) ''booked_hours'' []))) {||}
     else {||})"
  define new where "new = Room_init (strip (get_or (dict_row fn row) ''room_no'' []))
                 (strip (get_or (dict_row fn row) ''building'' [])) c (Some bh)"
  have l: "load_row fn row m = set_room (strip (get_or (dict_row fn row) ''room_no'' [])) new m"
    using False by (simp add: load_row_def Let_def bh_def c_def new_def)
  have t: "trimmed_entry (strip (get_or (dict_row fn row) ''room_no'' []), new)"
    by (simp add: trimmed_entry_def new_def Room_init_def strip_idem)
  have c: "row_capacity_nonneg fn row \<longrightarrow> capacity_nonneg new"
    by (simp add: row_capacity_nonneg_def capacity_nonneg_def new_def Room_init_def c_def
          split: option.splits)
  from assms have "e = (strip (get_or (dict_row fn row) ''room_no'' []), new)
      \<or> e \<in> set (DAList.impl_of (rooms m))"
    unfolding l by (rule set_room_entries)
  then show ?thesis using t c by auto
qed

lemma fold_load_row_new:
  "e \<in> set (DAList.impl_of (rooms (fold (load_row fn) rows m))) \<Longrightarrow>
   e \<in> set (DAList.impl_of (rooms m))
     \<or> (trimmed_entry e \<and> (list_all (row_capacity_nonneg fn) rows \<longrightarrow> capacity_nonneg (snd e)))"
proof (induction rows arbitrary: m)
  case Nil
  then show ?case by simp
next
  case (Cons row rows)
  from Cons.prems have "e \<in> set (DAList.impl_of (rooms (fold (load_row fn) rows (load_row fn row m))))"
    by simp
  then have "e \<in> set (DAList.impl_of (rooms (load_row fn row m)))
     \<or> (trimmed_entry e \<and> (list_all (row_capacity_nonneg fn) rows \<longrightarrow> capacity_nonneg (snd e)))"
    by (rule Cons.IH)
  then show ?case using load_row_new [of e fn row m] by auto
qed

lemma load_from_csv_new:
  assumes "e \<in> set (DAList.impl_of (rooms (fst (load_from_csv stored m))))"
  shows "e \<in> set (DAList.impl_of (rooms m))
       \<or> (trimmed_entry e \<and> (capacity_arg_nonneg (Load stored) \<longrightarrow> capacity_nonneg (snd e)))"
proof (cases stored)
  case None
  then show ?thesis using assms by (simp add: load_from_csv_def)
next
  case (Some rows)
  show ?thesis
  proof (cases rows)
    case Nil
    then show ?thesis using assms Some by (simp add: load_from_csv_def)
  next
    case (Cons fn rest)
    show ?thesis
    proof (cases "list_ex (\<lambda>h. h \<notin> set fn) CSV_HEADERS")
      case True
      then show ?thesis using assms Some Cons by (simp add: load_from_csv_def)
    next
      case False
      then have "e \<in> set (DAList.impl_of (rooms
          (fold (load_row fn) (filter (\<lambda>row. row \<noteq> []) rest) m)))"
        using assms Some Cons by (simp add: load_from_csv_def)
      then have "e \<in> set (DAList.impl_of (rooms m))
        \<or> (trimmed_entry e \<and> (list_all (row_capacity_nonneg fn) (filter (\<lambda>row. row \<noteq> []) rest)
              \<longrightarrow> capacity_nonneg (snd e)))"
        by (rule fold_load_row_new)
      then show ?thesis using Some Cons by (auto simp: list_all_iff)
    qed
  qed
qed

lemma values_entries:
  "r \<in> set (rooms_values m) \<longleftrightarrow> (\<exists>k. (k, r) \<in> set (DAList.impl_of (rooms m)))"
  by (force simp: rooms_values_def)

lemma load_row_keeps:
  "strip (get_or (dict_row fn row) ''room_no'' []) \<noteq> k \<Longrightarrow>
   DAList.lookup (rooms (load_row fn row m)) k = DAList.lookup (rooms m) k"
  by (simp add: load_row_def Let_def lookup_set_room)

lemma fold_load_row_keeps:
  "k \<notin> set (map (\<lambda>row. strip (get_or (dict_row fn row) ''room_no'' [])) rows) \<Longrightarrow>
   DAList.lookup (rooms (fold (load_row fn) rows m)) k = DAList.lookup (rooms m) k"
proof (induction rows arbitrary: m)
  case Nil
  then show ?case by simp
next
  case (Cons row rows)
  have "DAList.lookup (rooms (fold (load_row fn) rows (load_row fn row m))) k
      = DAList.lookup (rooms (load_row fn row m)) k"
    using Cons.prems by (intro Cons.IH) simp
  also have "\<dots> = DAList.lookup (rooms m) k"
    using Cons.prems by (intro load_row_keeps) auto
  finally show ?case by simp
qed

lemma load_from_csv_keeps:
  assumes "k \<notin> set (file_identifiers stored)"
  shows "DAList.lookup (rooms (fst (load_from_csv stored m))) k = DAList.lookup (rooms m) k"
proof (cases stored)
  case None
  then show ?thesis by (simp add: load_from_csv_def)
next
  case (Some rows)
  show ?thesis
  proof (cases rows)
    case Nil
    then show ?thesis using Some by (simp add: load_from_csv_def)
  next
    case (Cons fn rest)
    have "k \<notin> set (map (\<lambda>row. strip (get_or (dict_row fn row) ''room_no'' []))
        (filter (\<lambda>row. row \<noteq> []) rest))"
      using assms Some Cons by auto
    then have "DAList.lookup (rooms (fold (load_row fn) (filter (\<lambda>row. row \<noteq> []) rest) m)) k
        = DAList.lookup (rooms m) k"
      by (rule fold_load_row_keeps)
    then show ?thesis using Some Cons by (simp add: load_from_csv_def)
  qed
qed

lemma apply_operation_entries:
  assumes "\<forall>e \<in> set (DAList.impl_of (rooms m)). trimmed_entry e"
  shows "\<forall>e \<in> set (DAList.impl_of (rooms (apply_operation op m))). trimmed_entry e"
proof (cases op)
  case (AddRoom rn b c)
  show ?thesis
  proof
    fix e assume "e \<in> set (DAList.impl_of (rooms (apply_operation op m)))"
    then have e: "e \<in> set (DAList.impl_of (rooms (snd (add_room rn b c m))))"
      by (simp add: AddRoom)
    from add_room_cases [of rn b c m] show "trimmed_entry e"
    proof
      assume "snd (add_room rn b c m) = m"
      then show ?thesis using e assms by simp
    next
      assume a: "snd (add_room rn b c m)
        = set_room (strip rn) (Room_init (strip rn) (strip b) c None) m"
      from e have "e = (strip rn, Room_init (strip rn) (strip b) c None)
          \<or> e \<in> set (DAList.impl_of (rooms m))"
        unfolding a by (rule set_room_entries)
      then show ?thesis
        using assms by (auto simp: trimmed_entry_def Room_init_def strip_idem)
    qed
  qed
next
  case (BookRoom rn hour)
  show ?thesis
  proof
    fix e assume "e \<in> set (DAList.impl_of (rooms (apply_operation op m)))"
    then have e: "e \<in> set (DAList.impl_of (rooms (snd (book_room rn hour m))))"
      by (simp add: BookRoom)
    from book_room_cases [of rn hour m] show "trimmed_entry e"
    proof
      assume "snd (book_room rn hour m) = m"
      then show ?thesis using e assms by simp
    next
      assume "\<exists>r0. DAList.lookup (rooms m) (strip rn) = Some r0 \<and> hour |\<notin>| booked_hours r0 \<and>
        snd (book_room rn hour m)
          = set_room (strip rn) (r0\<lparr>booked_hours := finsert hour (booked_hours r0)\<rparr>) m"
      then obtain r0 where l: "DAList.lookup (rooms m) (strip rn) = Some r0"
        and s: "snd (book_room rn hour m)
          = set_room (strip rn) (r0\<lparr>booked_hours := finsert hour (booked_hours r0)\<rparr>) m"
        by blast
      have "trimmed_entry (strip rn, r0)" using lookup_entry [OF l] assms by simp
      then have new: "trimmed_entry (strip rn, r0\<lparr>booked_hours := finsert hour (booked_hours r0)\<rparr>)"
        by (simp add: trimmed_entry_def)
      from e have "e = (strip rn, r0\<lparr>booked_hours := finsert hour (booked_hours r0)\<rparr>)
          \<or> e \<in> set (DAList.impl_of (rooms m))"
        unfolding s by (rule set_room_entries)
      then show ?thesis using new assms by auto
    qed
  qed
next
  case (Load stored)
  show ?thesis
  proof
    fix e assume "e \<in> set (DAList.impl_of (rooms (apply_operation op m)))"
    then have "e \<in> set (DAList.impl_of (rooms (fst (load_from_csv stored m))))"
      by (simp add: Load)
    then show "trimmed_entry e" using load_from_csv_new [of e stored m] assms by auto
  qed
qed

lemma run_consistent: "consistent (run ops (fst (RoomManager_init stored)))"
proof -
  have "\<forall>e \<in> set (DAList.impl_of (rooms m)). trimmed_entry e \<Longrightarrow>
        \<forall>e \<in> set (DAList.impl_of (rooms (run ops m))). trimmed_entry e" for m
  proof (induction ops arbitrary: m)
    case Nil
    then show ?case by (simp add: run_def)
  next
    case (Cons op ops)
    have "\<forall>e \<in> set (DAList.impl_of (rooms (apply_operation op m))). trimmed_entry e"
      using Cons.prems by (rule apply_operation_entries)
    then have "\<forall>e \<in> set (DAList.impl_of (rooms (run ops (apply_operation op m)))). trimmed_entry e"
      by (rule Cons.IH)
    then show ?case by (simp add: run_def)
  qed
  note step = this
  have "\<forall>e \<in> set (DAList.impl_of (rooms (fst (RoomManager_init stored)))). trimmed_entry e"
    using init_entries [of stored] by simp
  then have "\<forall>e \<in> set (DAList.impl_of (rooms (run ops (fst (RoomManager_init stored))))).
      trimmed_entry e"
    by (rule step)
  then show ?thesis by (simp add: consistent_def list_all_iff)
qed

lemma apply_operation_capacity:
  assumes "capacity_arg_nonneg op" and "\<forall>r \<in> set (rooms_values m). capacity_nonneg r"
  shows "\<forall>r \<in> set (rooms_values (apply_operation op m)). capacity_nonneg r"
proof (cases op)
  case (AddRoom rn b c)
  then have c: "0 \<le> c" using assms(1) by simp
  show ?thesis
  proof
    fix r assume "r \<in> set (rooms_values (apply_operation op m))"
    then have r: "r \<in> set (rooms_values (snd (add_room rn b c m)))" by (simp add: AddRoom)
    from add_room_cases [of rn b c m] show "capacity_nonneg r"
    proof
      assume "snd (add_room rn b c m) = m"
      then show ?thesis using r assms(2) by simp
    next
      assume a: "snd (add_room rn b c m)
        = set_room (strip rn) (Room_init (strip rn) (strip b) c None) m"
      from r have "r = Room_init (strip rn) (strip b) c None \<or> r \<in> set (rooms_values m)"
        unfolding a by (rule set_room_values)
      then show ?thesis using assms(2) c by (auto simp: capacity_nonneg_def Room_init_def)
    qed
  qed
next
  case (BookRoom rn hour)
  show ?thesis
  proof
    fix r assume "r \<in> set (rooms_values (apply_operation op m))"
    then have r: "r \<in> set (rooms_values (snd (book_room rn hour m)))" by (simp add: BookRoom)
    from book_room_cases [of rn hour m] show "capacity_nonneg r"
    proof
      assume "snd (book_room rn hour m) = m"
      then show ?thesis using r assms(2) by simp
    next
      assume "\<exists>r0. DAList.lookup (rooms m) (strip rn) = Some r0 \<and> hour |\<notin>| booked_hours r0 \<and>
        snd (book_room rn hour m)
          = set_room (strip rn) (r0\<lparr>booked_hours := finsert hour (booked_hours r0)\<rparr>) m"
      then obtain r0 where l: "DAList.lookup (rooms m) (strip rn) = Some r0"
        and s: "snd (book_room rn hour m)
          = set_room (strip rn) (r0\<lparr>booked_hours := finsert hour (booked_hours r0)\<rparr>) m"
        by blast
      have "capacity_nonneg r0" using lookup_value [OF l] assms(2) by simp
      then have new: "capacity_nonneg (r0\<lparr>booked_hours := finsert hour (booked_hours r0)\<rparr>)"
        by (simp add: capacity_nonneg_def)
      from r have "r = r0\<lparr>booked_hours := finsert hour (booked_hours r0)\<rparr> \<or> r \<in> set (rooms_values m)"
        unfolding s by (rule set_room_values)
      then show ?thesis using new assms(2) by auto
    qed
  qed
next
  case (Load stored)
  show ?thesis
  proof
    fix r assume "r \<in> set (rooms_values (apply_operation op m))"
    then obtain k where "(k, r) \<in> set (DAList.impl_of (rooms (fst (load_from_csv stored m))))"
      by (auto simp: Load values_entries)
    then have "(k, r) \<in> set (DAList.impl_of (rooms m))
       \<or> (trimmed_entry (k, r) \<and> (capacity_arg_nonneg (Load stored) \<longrightarrow> capacity_nonneg (snd (k, r))))"
      by (rule load_from_csv_new)
    then show "capacity_nonneg r"
      using assms Load by (auto simp: values_entries)
  qed
qed

lemma run_capacity:
  "\<forall>op \<in> set ops. capacity_arg_nonneg op \<Longrightarrow>
   \<forall>r \<in> set (rooms_values m). capacity_nonneg r \<Longrightarrow>
   \<forall>r \<in> set (rooms_values (run ops m)). capacity_nonneg r"
proof (induction ops arbitrary: m)
  case Nil
  then show ?case by (simp add: run_def)
next
  case (Cons op ops)
  have "\<forall>r \<in> set (rooms_values (apply_operation op m)). capacity_nonneg r"
    using Cons.prems by (intro apply_operation_capacity) simp_all
  then have "\<forall>r \<in> set (rooms_values (run ops (apply_operation op m))). capacity_nonneg r"
    using Cons.prems by (intro Cons.IH) simp_all
  then show ?case by (simp add: run_def)
qed

lemma apply_operation_keeps:
  assumes "DAList.lookup (rooms m) k = Some r" and "\<not> replaces op k"
  shows "\<exists>r'. DAList.lookup (rooms (apply_operation op m)) k = Some r'
           \<and> booked_hours r |\<subseteq>| booked_hours r' \<and> capacity r' = capacity r
           \<and> room_no r' = room_no r \<and> building r' = building r"
proof (cases op)
  case (AddRoom rn b c)
  from add_room_cases [of rn b c m] show ?thesis
  proof
    assume "snd (add_room rn b c m) = m"
    then show ?thesis using assms by (simp add: AddRoom)
  next
    assume a: "snd (add_room rn b c m)
        = set_room (strip rn) (Room_init (strip rn) (strip b) c None) m"
    show ?thesis
    proof (cases "strip rn = k")
      case True
      then have "has_key m (strip rn)" using assms by (simp add: has_key_def)
      then have "snd (add_room rn b c m) = m" by (simp add: add_room_def)
      then show ?thesis using assms by (simp add: AddRoom)
    next
      case False
      then show ?thesis using assms by (simp add: AddRoom a lookup_set_room)
    qed
  qed
next
  case (BookRoom rn hour)
  from book_room_cases [of rn hour m] show ?thesis
  proof
    assume "snd (book_room rn hour m) = m"
    then show ?thesis using assms by (simp add: BookRoom)
  next
    assume "\<exists>r0. DAList.lookup (rooms m) (strip rn) = Some r0 \<and> hour |\<notin>| booked_hours r0 \<and>
        snd (book_room rn hour m)
          = set_room (strip rn) (r0\<lparr>booked_hours := finsert hour (booked_hours r0)\<rparr>) m"
    then obtain r0 where l: "DAList.lookup (rooms m) (strip rn) = Some r0"
      and s: "snd (book_room rn hour m)
          = set_room (strip rn) (r0\<lparr>booked_hours := finsert hour (booked_hours r0)\<rparr>) m"
      by blast
    show ?thesis
    proof (cases "strip rn = k")
      case True
      then have "r0 = r" using l assms by simp
      then show ?thesis using True by (auto simp: BookRoom s lookup_set_room)
    next
      case False
      then show ?thesis using assms by (simp add: BookRoom s lookup_set_room)
    qed
  qed
next
  case (Load stored)
  then have "k \<notin> set (file_identifiers stored)" using assms(2) by simp
  then have "DAList.lookup (rooms (fst (load_from_csv stored m))) k = DAList.lookup (rooms m) k"
    by (rule load_from_csv_keeps)
  then show ?thesis using assms(1) Load by simp
qed


subsection \<open>The search loop\<close>

lemma find_loop_filter:
  "find_loop bld mc fh rs =
     filter (\<lambda>r. (\<forall>b. bld = Some b \<longrightarrow> lower (building r) = lower b)
               \<and> (\<forall>c. mc = Some c \<longrightarrow> c \<le> capacity r)
               \<and> (\<forall>h. fh = Some h \<longrightarrow> is_free_at r h)) rs"
  by (induction rs) auto

lemma find_loop_none: "find_loop None None None rs = rs"
  by (induction rs) auto

subsection \<open>The header check and single rows\<close>

lemma header_check: "list_ex (\<lambda>h. h \<notin> set fieldnames) CSV_HEADERS \<longleftrightarrow> \<not> set CSV_HEADERS \<subseteq> set fieldnames"
  by (auto simp: list_ex_iff)

lemma load_example:
  "rooms_values (fst (RoomManager_init (Some [CSV_HEADERS, [''R1'', ''Main'', ''x'', ''5;99;abc;7'']])))
     = [\<lparr>room_no = ''R1'', building = ''Main'', capacity = 0, booked_hours = {|5, 7|}\<rparr>]"
  by code_simp

lemma load_append_row:
  assumes "set CSV_HEADERS \<subseteq> set fn"
  shows "fst (load_from_csv (Some (fn # rows @ [row])) m)
         = (if row = [] then fst (load_from_csv (Some (fn # rows)) m)
            else load_row fn row (fst (load_from_csv (Some (fn # rows)) m)))"
  using assms by (simp add: load_from_csv_def header_check)

subsection \<open>Small examples\<close>




lemma strip_Main: "strip ''Main'' = ''Main''"
  by code_simp







lemma loaded_quietly: "snd (RoomManager_init (Some (fst (save_to_csv m)))) = []"
  by (simp add: RoomManager_init_def load_from_csv_def save_to_csv_def headers_accepted
        split: prod.splits)

section \<open>The claims\<close>

subsection \<open>Booking an hour\<close>

text \<open>
  C1. For every room and every hour \<open>h\<close> in \<open>[0, 23]\<close> that is not yet booked,
  \<open>book_hour h\<close> succeeds; afterwards \<open>is_free_at h\<close> is false, and a second
  \<open>book_hour h\<close> raises \<open>TimeslotAlreadyBookedError\<close> and leaves the booked hours
  (indeed the whole room) as they were.
\<close>

theorem book_hour_then_rebook:
  assumes "0 \<le> h" and "h \<le> 23" and "h |\<notin>| booked_hours r"
  shows "fst (book_hour h r) = Inr ()
       \<and> \<not> is_free_at (snd (book_hour h r)) h
       \<and> fst (book_hour h (snd (book_hour h r))) = Inl TimeslotAlreadyBookedError
       \<and> snd (book_hour h (snd (book_hour h r))) = snd (book_hour h r)
       \<and> booked_hours (snd (book_hour h r)) = finsert h (booked_hours r)"
  using assms by (simp add: book_hour_def is_free_at_def)

theorem book_hour_then_rebook_witness:
  "fst (book_hour 9 (Room_init ''R1'' ''Main'' 30 None)) = Inr ()
   \<and> \<not> is_free_at (snd (book_hour 9 (Room_init ''R1'' ''Main'' 30 None))) 9
   \<and> fst (book_hour 9 (snd (book_hour 9 (Room_init ''R1'' ''Main'' 30 None))))
       = Inl TimeslotAlreadyBookedError"
  using book_hour_then_rebook [of 9 "Room_init ''R1'' ''Main'' 30 None"]
  by (simp add: Room_init_def)

subsection \<open>Saving and loading\<close>




subsection \<open>Searching\<close>

text \<open>
  C3. \<open>find_rooms\<close> returns, in dictionary order, exactly the rooms that satisfy every
  criterion that is supplied: the building equal to the one asked for after \<open>lower\<close> on
  both sides (the whole string, not a part of it), the capacity at least \<open>min_capacity\<close>,
  and \<open>is_free_at\<close> true at \<open>free_at_hour\<close>. A criterion that is \<open>None\<close> filters
  nothing, and with no criterion at all every room is returned.
\<close>

theorem find_rooms_all_criteria:
  "find_rooms bld mc fh m =
     filter (\<lambda>r. (\<forall>b. bld = Some b \<longrightarrow> lower (building r) = lower b)
               \<and> (\<forall>c. mc = Some c \<longrightarrow> c \<le> capacity r)
               \<and> (\<forall>h. fh = Some h \<longrightarrow> is_free_at r h)) (rooms_values m)
   \<and> find_rooms None None None m = rooms_values m"
  by (simp add: find_rooms_def find_loop_filter find_loop_none)

theorem find_rooms_all_criteria_witness:
  "filter (\<lambda>r. (\<forall>b. Some ''MAIN'' = Some b \<longrightarrow> lower (building r) = lower b)
               \<and> (\<forall>c. Some (30::int) = Some c \<longrightarrow> c \<le> capacity r)
               \<and> (\<forall>h. Some (9::int) = Some h \<longrightarrow> is_free_at r h))
     (rooms_values (run [AddRoom ''R1'' ''Main'' 30, AddRoom ''R2'' ''main'' 30,
        AddRoom ''R3'' ''Main'' 29, AddRoom ''R4'' ''Mainz'' 40, BookRoom ''R2'' 9] empty_manager))
   = [\<lparr>room_no = ''R1'', building = ''Main'', capacity = 30, booked_hours = {||}\<rparr>]"
proof -
  have "find_rooms (Some ''MAIN'') (Some 30) (Some 9)
     (run [AddRoom ''R1'' ''Main'' 30, AddRoom ''R2'' ''main'' 30, AddRoom ''R3'' ''Main'' 29,
           AddRoom ''R4'' ''Mainz'' 40, BookRoom ''R2'' 9] empty_manager)
   = [\<lparr>room_no = ''R1'', building = ''Main'', capacity = 30, booked_hours = {||}\<rparr>]"
    by code_simp
  then show ?thesis
    using find_rooms_all_criteria [of "Some ''MAIN''" "Some 30" "Some 9"
      "run [AddRoom ''R1'' ''Main'' 30, AddRoom ''R2'' ''main'' 30, AddRoom ''R3'' ''Main'' 29,
           AddRoom ''R4'' ''Mainz'' 40, BookRoom ''R2'' 9] empty_manager"]
    by simp
qed

subsection \<open>Adding a room\<close>

text \<open>
  C4. \<open>add_room\<close> raises \<open>RoomAlreadyExistsError\<close> exactly when the trimmed identifier
  is a key of the registry, it raises nothing else, and a call that raises leaves the
  registry as it was. A second \<open>add_room\<close> with the same identifier always raises,
  whatever building and capacity it is given and however the first call ended. On success
  the room is stored under the trimmed identifier, with the trimmed identifier and the
  trimmed building.
\<close>

theorem add_room_duplicate:
  "(fst (add_room rn b c m) = Inl RoomAlreadyExistsError \<longleftrightarrow> has_key m (strip rn))
   \<and> (\<forall>e. fst (add_room rn b c m) = Inl e \<longrightarrow>
         e = RoomAlreadyExistsError \<and> snd (add_room rn b c m) = m)
   \<and> fst (add_room rn b' c' (snd (add_room rn b c m))) = Inl RoomAlreadyExistsError
   \<and> snd (add_room rn b' c' (snd (add_room rn b c m))) = snd (add_room rn b c m)
   \<and> (\<forall>r. fst (add_room rn b c m) = Inr r \<longrightarrow>
         r = \<lparr>room_no = strip rn, building = strip b, capacity = c, booked_hours = {||}\<rparr>
         \<and> DAList.lookup (rooms (snd (add_room rn b c m))) (strip rn) = Some r)"
  by (auto simp: add_room_def has_key_def set_room_def Room_init_def Let_def DAList.lookup_update)

theorem add_room_duplicate_witness:
  "fst (add_room '' R1 '' '' Main '' 30 empty_manager)
     = Inr \<lparr>room_no = ''R1'', building = ''Main'', capacity = 30, booked_hours = {||}\<rparr>
   \<and> \<not> has_key empty_manager (strip '' R1 '')
   \<and> fst (add_room '' R1 '' ''Annex'' 5 (snd (add_room '' R1 '' '' Main '' 30 empty_manager)))
     = Inl RoomAlreadyExistsError"
proof -
  have "fst (add_room '' R1 '' '' Main '' 30 empty_manager)
     = Inr \<lparr>room_no = ''R1'', building = ''Main'', capacity = 30, booked_hours = {||}\<rparr>"
    by code_simp
  then show ?thesis
    using add_room_duplicate [of "'' R1 ''" "'' Main ''" 30 empty_manager "''Annex''" 5]
    by simp
qed

subsection \<open>Booking through the manager\<close>

text \<open>
  C10. When \<open>book_room\<close> raises, the registry afterwards is the registry before the call,
  and the exception is the one of the step that failed: \<open>RoomNotFoundError\<close> from
  \<open>get_room\<close>, or \<open>TimeslotAlreadyBookedError\<close> from \<open>book_hour\<close> on the room found.
\<close>

theorem book_room_failure_atomic:
  assumes "fst (book_room rn hour m) = Inl e"
  shows "snd (book_room rn hour m) = m
       \<and> ((e = RoomNotFoundError \<and> get_room rn m = Inl RoomNotFoundError)
          \<or> (e = TimeslotAlreadyBookedError
             \<and> (\<exists>r. get_room rn m = Inr r
                    \<and> fst (book_hour hour r) = Inl TimeslotAlreadyBookedError)))"
proof (cases "DAList.lookup (rooms m) (strip rn)")
  case None
  then show ?thesis using assms by (auto simp: book_room_def get_room_def)
next
  case (Some r)
  show ?thesis
  proof (cases "hour |\<in>| booked_hours r")
    case True
    then show ?thesis
      using Some assms by (auto simp: book_room_def get_room_def book_hour_def set_room_same)
  next
    case False
    then show ?thesis
      using Some assms by (simp add: book_room_def get_room_def book_hour_def)
  qed
qed

theorem book_room_failure_atomic_witness:
  "fst (book_room ''R1'' 9 (run [AddRoom ''R1'' ''Main'' 30, BookRoom ''R1'' 9] empty_manager))
     = Inl TimeslotAlreadyBookedError
   \<and> snd (book_room ''R1'' 9 (run [AddRoom ''R1'' ''Main'' 30, BookRoom ''R1'' 9] empty_manager))
     = run [AddRoom ''R1'' ''Main'' 30, BookRoom ''R1'' 9] empty_manager
   \<and> fst (book_room ''R2'' 9 (run [AddRoom ''R1'' ''Main'' 30, BookRoom ''R1'' 9] empty_manager))
     = Inl RoomNotFoundError
   \<and> snd (book_room ''R2'' 9 (run [AddRoom ''R1'' ''Main'' 30, BookRoom ''R1'' 9] empty_manager))
     = run [AddRoom ''R1'' ''Main'' 30, BookRoom ''R1'' 9] empty_manager"
proof -
  have a: "fst (book_room ''R1'' 9 (run [AddRoom ''R1'' ''Main'' 30, BookRoom ''R1'' 9] empty_manager))
     = Inl TimeslotAlreadyBookedError"
    by code_simp
  have b: "fst (book_room ''R2'' 9 (run [AddRoom ''R1'' ''Main'' 30, BookRoom ''R1'' 9] empty_manager))
     = Inl RoomNotFoundError"
    by code_simp
  show ?thesis
    using a b book_room_failure_atomic [OF a] book_room_failure_atomic [OF b] by simp
qed

subsection \<open>Tolerant loading\<close>

text \<open>
  C5. While loading, each row that is not an empty list goes through \<open>load_row\<close>. A row
  whose trimmed identifier is empty changes nothing. Otherwise the row stores a room under
  the trimmed identifier, with the trimmed building; its capacity is 0 when the capacity
  field is not an integer for \<open>int\<close>, and the integer otherwise; and its booked hours are
  exactly the integers in \<open>[0, 23]\<close> that some piece of the booked-hours field, trimmed,
  parses to, so that every other piece is dropped alone. A row with the booked hours
  \<open>5;99;abc;7\<close> gives the hours 5 and 7.
\<close>

theorem load_row_tolerance:
  "(set CSV_HEADERS \<subseteq> set fn \<longrightarrow>
      fst (load_from_csv (Some (fn # rows @ [row])) m)
        = (if row = [] then fst (load_from_csv (Some (fn # rows)) m)
           else load_row fn row (fst (load_from_csv (Some (fn # rows)) m))))
   \<and> (strip (get_or (dict_row fn row) ''room_no'' []) = [] \<longrightarrow> load_row fn row m = m)
   \<and> (strip (get_or (dict_row fn row) ''room_no'' []) \<noteq> [] \<longrightarrow>
        (\<exists>r. load_row fn row m = set_room (strip (get_or (dict_row fn row) ''room_no'' [])) r m
           \<and> room_no r = strip (get_or (dict_row fn row) ''room_no'' [])
           \<and> building r = strip (get_or (dict_row fn row) ''building'' [])
           \<and> (py_int (strip (get_or (dict_row fn row) ''capacity'' ''0'')) = None \<longrightarrow> capacity r = 0)
           \<and> (\<forall>c. py_int (strip (get_or (dict_row fn row) ''capacity'' ''0'')) = Some c \<longrightarrow> capacity r = c)
           \<and> fset (booked_hours r) = {h. 0 \<le> h \<and> h \<le> 23 \<and>
                (\<exists>p \<in> set (split CHR '';'' (strip (get_or (dict_row fn row) ''booked_hours'' []))).
                    py_int (strip p) = Some h)}))
   \<and> rooms_values (fst (RoomManager_init (Some [CSV_HEADERS, [''R1'', ''Main'', ''x'', ''5;99;abc;7'']])))
     = [\<lparr>room_no = ''R1'', building = ''Main'', capacity = 0, booked_hours = {|5, 7|}\<rparr>]"
proof -
  define bs where "bs = strip (get_or (dict_row fn row) ''booked_hours'' [])"
  have empty: "{h. 0 \<le> h \<and> h \<le> 23 \<and> (\<exists>p \<in> set (split CHR '';'' []). py_int (strip p) = Some h)} = {}"
    by (simp add: split_def strip_def py_int_empty)
  have hours: "fset (if bs \<noteq> [] then parse_hours (split CHR '';'' bs) {||} else {||})
     = {h. 0 \<le> h \<and> h \<le> 23 \<and> (\<exists>p \<in> set (split CHR '';'' bs). py_int (strip p) = Some h)}"
    using empty by (simp add: parse_hours_fset)
  have row: "strip (get_or (dict_row fn row) ''room_no'' []) \<noteq> [] \<Longrightarrow>
      load_row fn row m = set_room (strip (get_or (dict_row fn row) ''room_no'' []))
        (Room_init (strip (get_or (dict_row fn row) ''room_no'' []))
           (strip (get_or (dict_row fn row) ''building'' []))
           (case py_int (strip (get_or (dict_row fn row) ''capacity'' ''0'')) of
              Some v \<Rightarrow> v | None \<Rightarrow> 0)
           (Some (if bs \<noteq> [] then parse_hours (split CHR '';'' bs) {||} else {||}))) m"
    by (simp add: load_row_def Let_def bs_def)
  have skip: "strip (get_or (dict_row fn row) ''room_no'' []) = [] \<Longrightarrow> load_row fn row m = m"
    by (simp add: load_row_def)
  have third: "\<exists>r. load_row fn row m = set_room (strip (get_or (dict_row fn row) ''room_no'' [])) r m
           \<and> room_no r = strip (get_or (dict_row fn row) ''room_no'' [])
           \<and> building r = strip (get_or (dict_row fn row) ''building'' [])
           \<and> (py_int (strip (get_or (dict_row fn row) ''capacity'' ''0'')) = None \<longrightarrow> capacity r = 0)
           \<and> (\<forall>c. py_int (strip (get_or (dict_row fn row) ''capacity'' ''0'')) = Some c \<longrightarrow> capacity r = c)
           \<and> fset (booked_hours r) = {h. 0 \<le> h \<and> h \<le> 23 \<and>
                (\<exists>p \<in> set (split CHR '';'' bs). py_int (strip p) = Some h)}"
    if "strip (get_or (dict_row fn row) ''room_no'' []) \<noteq> []"
    by (rule exI, intro conjI, rule row [OF that]) (simp_all add: Room_init_def hours)
  show ?thesis
    using load_append_row [of fn rows row m] skip third load_example
    unfolding bs_def by blast
qed

theorem load_row_tolerance_witness:
  "strip (get_or (dict_row CSV_HEADERS [''R1'', '' Main'', ''x'', ''5;99;abc;7'']) ''room_no'' []) = ''R1''
   \<and> py_int (strip (get_or (dict_row CSV_HEADERS [''R1'', '' Main'', ''x'', ''5;99;abc;7'']) ''capacity'' ''0'')) = None
   \<and> (\<exists>r. load_row CSV_HEADERS [''R1'', '' Main'', ''x'', ''5;99;abc;7''] empty_manager
             = set_room ''R1'' r empty_manager
          \<and> room_no r = ''R1'' \<and> building r = ''Main'' \<and> capacity r = 0)
   \<and> load_row CSV_HEADERS ['' '', ''Main'', ''30'', ''9''] empty_manager = empty_manager"
proof -
  have a: "strip (get_or (dict_row CSV_HEADERS [''R1'', '' Main'', ''x'', ''5;99;abc;7'']) ''room_no'' []) = ''R1''"
    by code_simp
  have b: "strip (get_or (dict_row CSV_HEADERS [''R1'', '' Main'', ''x'', ''5;99;abc;7'']) ''building'' []) = ''Main''"
    by code_simp
  have c: "py_int (strip (get_or (dict_row CSV_HEADERS [''R1'', '' Main'', ''x'', ''5;99;abc;7'']) ''capacity'' ''0'')) = None"
    by code_simp
  have d: "strip (get_or (dict_row CSV_HEADERS ['' '', ''Main'', ''30'', ''9'']) ''room_no'' []) = []"
    by code_simp
  have "\<exists>r. load_row CSV_HEADERS [''R1'', '' Main'', ''x'', ''5;99;abc;7''] empty_manager
             = set_room ''R1'' r empty_manager
          \<and> room_no r = ''R1'' \<and> building r = ''Main'' \<and> capacity r = 0"
    using load_row_tolerance [of CSV_HEADERS "[]" "[''R1'', '' Main'', ''x'', ''5;99;abc;7'']" empty_manager]
    unfolding a b c by auto
  moreover have "load_row CSV_HEADERS ['' '', ''Main'', ''30'', ''9''] empty_manager = empty_manager"
    using load_row_tolerance [of CSV_HEADERS "[]" "['' '', ''Main'', ''30'', ''9'']" empty_manager] d
    by simp
  ultimately show ?thesis using a c by simp
qed

text \<open>
  C6. When the header row lacks one of the four column names, in whatever order and with
  whatever other columns, loading changes nothing and prints the warning, so that a fresh
  manager stays empty; a header with all four names is accepted without a diagnostic. A
  file without any row is treated like a bad header, and a file that does not exist
  leaves the manager empty with no diagnostic. Loading is a total function: it raises
  nothing.
\<close>

theorem load_rejects_bad_header:
  "(\<not> set CSV_HEADERS \<subseteq> set fieldnames \<longrightarrow>
       load_from_csv (Some (fieldnames # rest)) m = (m, [HeaderWarning])
     \<and> RoomManager_init (Some (fieldnames # rest)) = (empty_manager, [HeaderWarning]))
   \<and> (set CSV_HEADERS \<subseteq> set fieldnames \<longrightarrow>
       snd (RoomManager_init (Some (fieldnames # rest))) = [])
   \<and> RoomManager_init (Some []) = (empty_manager, [HeaderWarning])
   \<and> RoomManager_init None = (empty_manager, [])
   \<and> rooms_values empty_manager = []"
  by (simp add: RoomManager_init_def load_from_csv_def header_check rooms_values_def
        empty_manager_def DAList.empty.rep_eq)

theorem load_rejects_bad_header_witness:
  "RoomManager_init (Some [[''room_no'', ''capacity'', ''booked_hours'', ''name''],
       [''R1'', ''30'', ''9'', ''Main'']]) = (empty_manager, [HeaderWarning])
   \<and> snd (RoomManager_init (Some [[''name'', ''booked_hours'', ''capacity'', ''building'', ''room_no''],
       [''x'', ''9'', ''30'', ''Main'', ''R1'']])) = []"
  using load_rejects_bad_header [of "[''room_no'', ''capacity'', ''booked_hours'', ''name'']"
      "[[''R1'', ''30'', ''9'', ''Main'']]" empty_manager]
    load_rejects_bad_header [of "[''name'', ''booked_hours'', ''capacity'', ''building'', ''room_no'']"
      "[[''x'', ''9'', ''30'', ''Main'', ''R1'']]" empty_manager]
  by (simp add: CSV_HEADERS_def)

subsection \<open>What holds of every room of a session\<close>

text \<open>
  C7, as amended. The claim as written, for arbitrary arguments, fails in two ways (the
  examples below). Neither \<open>add_room\<close> nor \<open>book_room\<close> checks its arguments, which is
  the front end's work: a capacity of -5 and the hour 99 are accepted. And a load on a
  manager that holds rooms stores a new room for every identifier of the file, so the room
  that was there, with its hours, is gone. What holds: in every session, with loads
  anywhere in it, whose \<open>book_room\<close> calls pass hours in \<open>[0, 23]\<close>, every booked hour of
  every room lies in \<open>[0, 23]\<close>; when moreover the capacities passed to \<open>add_room\<close> and
  the capacities that the rows of the loaded files parse to are not negative, no capacity
  is negative; and with arbitrary arguments, every operation keeps every room, removes
  none of its hours and leaves its identifier, building and capacity alone, except a load
  of a file that has a row with the identifier of the room.
\<close>

theorem session_rooms_invariants:
  "((\<forall>op \<in> set ops. hour_arg_in_range op) \<longrightarrow>
      (\<forall>r \<in> set (rooms_values (run ops (fst (RoomManager_init stored)))).
         \<forall>h. h |\<in>| booked_hours r \<longrightarrow> 0 \<le> h \<and> h \<le> 23))
   \<and> ((\<forall>op \<in> set ops. capacity_arg_nonneg op) \<and>
       (\<forall>r \<in> set (rooms_values (fst (RoomManager_init stored))). 0 \<le> capacity r) \<longrightarrow>
      (\<forall>r \<in> set (rooms_values (run ops (fst (RoomManager_init stored)))). 0 \<le> capacity r))
   \<and> (\<forall>k r. DAList.lookup (rooms m) k = Some r \<and> \<not> replaces op k \<longrightarrow>
        (\<exists>r'. DAList.lookup (rooms (apply_operation op m)) k = Some r'
           \<and> booked_hours r |\<subseteq>| booked_hours r' \<and> capacity r' = capacity r
           \<and> room_no r' = room_no r \<and> building r' = building r))"
proof (intro conjI impI allI)
  assume "\<forall>op \<in> set ops. hour_arg_in_range op"
  then have "\<forall>r \<in> set (rooms_values (run ops (fst (RoomManager_init stored)))). hours_in_range r"
    by (rule session_hours)
  then show "\<forall>r \<in> set (rooms_values (run ops (fst (RoomManager_init stored)))).
         \<forall>h. h |\<in>| booked_hours r \<longrightarrow> 0 \<le> h \<and> h \<le> 23"
    by (simp add: hours_in_range_def)
next
  assume a: "(\<forall>op \<in> set ops. capacity_arg_nonneg op) \<and>
       (\<forall>r \<in> set (rooms_values (fst (RoomManager_init stored))). 0 \<le> capacity r)"
  then have "\<forall>r \<in> set (rooms_values (fst (RoomManager_init stored))). capacity_nonneg r"
    by (simp add: capacity_nonneg_def)
  then have "\<forall>r \<in> set (rooms_values (run ops (fst (RoomManager_init stored)))). capacity_nonneg r"
    using a by (intro run_capacity) simp_all
  then show "\<forall>r \<in> set (rooms_values (run ops (fst (RoomManager_init stored)))). 0 \<le> capacity r"
    by (simp add: capacity_nonneg_def)
next
  fix k r assume "DAList.lookup (rooms m) k = Some r \<and> \<not> replaces op k"
  then have "DAList.lookup (rooms m) k = Some r" and "\<not> replaces op k" by simp_all
  then show "\<exists>r'. DAList.lookup (rooms (apply_operation op m)) k = Some r'
           \<and> booked_hours r |\<subseteq>| booked_hours r' \<and> capacity r' = capacity r
           \<and> room_no r' = room_no r \<and> building r' = building r"
    by (rule apply_operation_keeps)
qed

theorem session_rooms_invariants_witness:
  "list_all hour_arg_in_range
     [AddRoom ''R1'' ''Main'' 30, BookRoom ''R1'' 9,
      Load (Some [CSV_HEADERS, [''R2'', ''Annex'', ''5'', ''7'']]), BookRoom ''R1'' 9]
   \<and> list_all capacity_arg_nonneg
     [AddRoom ''R1'' ''Main'' 30, BookRoom ''R1'' 9,
      Load (Some [CSV_HEADERS, [''R2'', ''Annex'', ''5'', ''7'']]), BookRoom ''R1'' 9]
   \<and> list_all (\<lambda>r. 0 \<le> capacity r \<and> fBall (booked_hours r) (\<lambda>h. 0 \<le> h \<and> h \<le> 23))
        (rooms_values (run
          [AddRoom ''R1'' ''Main'' 30, BookRoom ''R1'' 9,
           Load (Some [CSV_HEADERS, [''R2'', ''Annex'', ''5'', ''7'']]), BookRoom ''R1'' 9]
          (fst (RoomManager_init (Some [CSV_HEADERS, [''R0'', ''Annex'', ''12'', ''3;4'']])))))"
proof -
  have a: "list_all hour_arg_in_range
     [AddRoom ''R1'' ''Main'' 30, BookRoom ''R1'' 9,
      Load (Some [CSV_HEADERS, [''R2'', ''Annex'', ''5'', ''7'']]), BookRoom ''R1'' 9]"
    by simp
  have b: "list_all capacity_arg_nonneg
     [AddRoom ''R1'' ''Main'' 30, BookRoom ''R1'' 9,
      Load (Some [CSV_HEADERS, [''R2'', ''Annex'', ''5'', ''7'']]), BookRoom ''R1'' 9]"
    by code_simp
  have c: "rooms_values (fst (RoomManager_init (Some [CSV_HEADERS, [''R0'', ''Annex'', ''12'', ''3;4'']])))
     = [\<lparr>room_no = ''R0'', building = ''Annex'', capacity = 12, booked_hours = {|3, 4|}\<rparr>]"
    by code_simp
  show ?thesis
    using a b c session_rooms_invariants [of
      "[AddRoom ''R1'' ''Main'' 30, BookRoom ''R1'' 9,
        Load (Some [CSV_HEADERS, [''R2'', ''Annex'', ''5'', ''7'']]), BookRoom ''R1'' 9]"
      "Some [CSV_HEADERS, [''R0'', ''Annex'', ''12'', ''3;4'']]"]
    by (simp add: list_all_iff)
qed

text \<open>
  Two sessions on a manager without a file. \<open>add_room("R1", "Main", -5)\<close> and
  \<open>book_room("R1", 99)\<close> succeed and leave a room with a negative capacity and the hour
  99. After \<open>add_room("R1", "Main", 30)\<close> and \<open>book_room("R1", 9)\<close> the room has the
  hour 9, and a load of a file with a row for \<open>R1\<close> without hours leaves it with none.
\<close>

theorem session_rooms_invariants_counterexample:
  "get_room ''R1'' (run [AddRoom ''R1'' ''Main'' (- 5), BookRoom ''R1'' 99] (fst (RoomManager_init None)))
     = Inr \<lparr>room_no = ''R1'', building = ''Main'', capacity = - 5, booked_hours = {|99|}\<rparr>
   \<and> get_room ''R1'' (run [AddRoom ''R1'' ''Main'' 30, BookRoom ''R1'' 9] (fst (RoomManager_init None)))
     = Inr \<lparr>room_no = ''R1'', building = ''Main'', capacity = 30, booked_hours = {|9|}\<rparr>
   \<and> get_room ''R1'' (run [AddRoom ''R1'' ''Main'' 30, BookRoom ''R1'' 9,
          Load (Some [CSV_HEADERS, [''R1'', ''Main'', ''30'', []]])] (fst (RoomManager_init None)))
     = Inr \<lparr>room_no = ''R1'', building = ''Main'', capacity = 30, booked_hours = {||}\<rparr>"
  by code_simp

text \<open>
  C8, as amended. The claim as written fails after \<open>book_room("R1", 99)\<close>: the hour 99
  is booked, so \<open>is_free_at 99\<close> is false (the example below). In every session, with
  loads anywhere in it, whose \<open>book_room\<close> calls pass hours in \<open>[0, 23]\<close>, \<open>is_free_at h\<close>
  is true of every room for every \<open>h\<close> outside \<open>[0, 23]\<close>.
\<close>

theorem out_of_range_hour_free:
  assumes "\<forall>op \<in> set ops. hour_arg_in_range op"
    and "r \<in> set (rooms_values (run ops (fst (RoomManager_init stored))))"
    and "h < 0 \<or> 23 < h"
  shows "is_free_at r h"
proof -
  have "hours_in_range r" using session_hours [OF assms(1)] assms(2) by blast
  then show ?thesis using assms(3) by (auto simp: is_free_at_def hours_in_range_def)
qed

theorem out_of_range_hour_free_witness:
  "rooms_values (run [AddRoom ''R1'' ''Main'' 30, BookRoom ''R1'' 9,
       Load (Some [CSV_HEADERS, [''R2'', ''Annex'', ''5'', ''7;24'']])] (fst (RoomManager_init None)))
     = [\<lparr>room_no = ''R1'', building = ''Main'', capacity = 30, booked_hours = {|9|}\<rparr>,
        \<lparr>room_no = ''R2'', building = ''Annex'', capacity = 5, booked_hours = {|7|}\<rparr>]
   \<and> is_free_at \<lparr>room_no = ''R1'', building = ''Main'', capacity = 30, booked_hours = {|9|}\<rparr> 24
   \<and> is_free_at \<lparr>room_no = ''R2'', building = ''Annex'', capacity = 5, booked_hours = {|7|}\<rparr> 24
   \<and> is_free_at \<lparr>room_no = ''R1'', building = ''Main'', capacity = 30, booked_hours = {|9|}\<rparr> (- 1)"
proof -
  have a: "\<forall>op \<in> set [AddRoom ''R1'' ''Main'' 30, BookRoom ''R1'' 9,
       Load (Some [CSV_HEADERS, [''R2'', ''Annex'', ''5'', ''7;24'']])]. hour_arg_in_range op"
    by simp
  have v: "rooms_values (run [AddRoom ''R1'' ''Main'' 30, BookRoom ''R1'' 9,
       Load (Some [CSV_HEADERS, [''R2'', ''Annex'', ''5'', ''7;24'']])] (fst (RoomManager_init None)))
     = [\<lparr>room_no = ''R1'', building = ''Main'', capacity = 30, booked_hours = {|9|}\<rparr>,
        \<lparr>room_no = ''R2'', building = ''Annex'', capacity = 5, booked_hours = {|7|}\<rparr>]"
    by code_simp
  have r1: "\<lparr>room_no = ''R1'', building = ''Main'', capacity = 30, booked_hours = {|9|}\<rparr>
     \<in> set (rooms_values (run [AddRoom ''R1'' ''Main'' 30, BookRoom ''R1'' 9,
       Load (Some [CSV_HEADERS, [''R2'', ''Annex'', ''5'', ''7;24'']])] (fst (RoomManager_init None))))"
    unfolding v by simp
  have r2: "\<lparr>room_no = ''R2'', building = ''Annex'', capacity = 5, booked_hours = {|7|}\<rparr>
     \<in> set (rooms_values (run [AddRoom ''R1'' ''Main'' 30, BookRoom ''R1'' 9,
       Load (Some [CSV_HEADERS, [''R2'', ''Annex'', ''5'', ''7;24'']])] (fst (RoomManager_init None))))"
    unfolding v by simp
  show ?thesis
    using v out_of_range_hour_free [OF a r1, of 24] out_of_range_hour_free [OF a r2, of 24]
      out_of_range_hour_free [OF a r1, of "- 1"]
    by simp
qed

theorem out_of_range_hour_free_counterexample:
  "get_room ''R1'' (run [AddRoom ''R1'' ''Main'' 30, BookRoom ''R1'' 99] (fst (RoomManager_init None)))
     = Inr \<lparr>room_no = ''R1'', building = ''Main'', capacity = 30, booked_hours = {|99|}\<rparr>
   \<and> \<not> is_free_at \<lparr>room_no = ''R1'', building = ''Main'', capacity = 30, booked_hours = {|99|}\<rparr> 99"
  by code_simp

subsection \<open>The empty identifier\<close>

text \<open>
  C9. \<open>add_room\<close> does not check that the identifier is not empty: when the identifier
  consists of whitespace only (or is empty) and the registry has no room under the empty
  string, \<open>add_room\<close> succeeds and stores the room under the empty string. Saving and
  loading then loses this room, and the load prints nothing: the loaded registry has no
  room under the empty string.
\<close>

theorem add_room_blank_identifier:
  assumes "\<forall>c \<in> set rn. isspace c" and "\<not> has_key m []"
  shows "fst (add_room rn b c m)
           = Inr \<lparr>room_no = [], building = strip b, capacity = c, booked_hours = {||}\<rparr>
       \<and> DAList.lookup (rooms (snd (add_room rn b c m))) []
           = Some \<lparr>room_no = [], building = strip b, capacity = c, booked_hours = {||}\<rparr>
       \<and> \<not> has_key (fst (RoomManager_init (Some (fst (save_to_csv (snd (add_room rn b c m))))))) []
       \<and> snd (RoomManager_init (Some (fst (save_to_csv (snd (add_room rn b c m)))))) = []"
proof -
  have s: "strip rn = []" using assms(1) by (rule strip_all_space)
  have ar: "add_room rn b c m
      = (Inr \<lparr>room_no = [], building = strip b, capacity = c, booked_hours = {||}\<rparr>,
         set_room [] \<lparr>room_no = [], building = strip b, capacity = c, booked_hours = {||}\<rparr> m)"
    using assms(2) by (simp add: add_room_def s Room_init_def Let_def)
  show ?thesis
    by (simp add: ar lookup_set_room init_no_empty_key loaded_quietly)
qed

theorem add_room_blank_identifier_witness:
  "fst (add_room ''  '' ''Main'' 30 empty_manager)
     = Inr \<lparr>room_no = [], building = ''Main'', capacity = 30, booked_hours = {||}\<rparr>
   \<and> has_key (snd (add_room ''  '' ''Main'' 30 empty_manager)) []
   \<and> \<not> has_key (fst (RoomManager_init (Some (fst (save_to_csv
         (snd (add_room ''  '' ''Main'' 30 empty_manager))))))) []"
proof -
  have a: "\<forall>c \<in> set ''  ''. isspace c" by (simp add: isspace_def)
  have b: "\<not> has_key empty_manager []" by (simp add: has_key_def empty_manager_def)
  show ?thesis
    using add_room_blank_identifier [OF a b, of "''Main''" 30] strip_Main
    by (simp add: has_key_def)
qed

end
